theory Spec2Isabelle
  imports Complex_Main
begin

section \<open>Data model (types.ts)\<close>

text \<open>
  A TypeScript \<open>number\<close> is modelled as a real number: the comparisons, subtraction,
  division, \<open>Math.floor\<close> and \<open>Math.ceil\<close> of the source are the exact operations on
  \<open>real\<close>. Rounding, \<open>NaN\<close> and the infinities of IEEE doubles are outside this model:
  the quotients of the constructor and of \<open>worldToGrid\<close> are exact here and rounded to
  a double in the source. Where the rounding decides a property, the state that the
  source reaches is written out (\<open>no_cells\<close> below).

  Field names that clash with constants of HOL carry a suffix: \<open>x\<close>, \<open>y\<close> are \<open>x_c\<close>,
  \<open>y_c\<close>; \<open>min\<close>, \<open>max\<close> are \<open>min_c\<close>, \<open>max_c\<close>; \<open>id\<close> is \<open>id_e\<close>.
\<close>

record point =
  x_c :: real
  y_c :: real

record AABB =
  min_c :: point
  max_c :: point

text \<open>An entity id is \<open>number | string\<close>.\<close>

datatype ident = Num real | Str string

record Entity =
  id_e :: ident
  aabb :: AABB

section \<open>The overlap predicate (aabb.ts)\<close>

definition aabbIntersects :: "AABB \<Rightarrow> AABB \<Rightarrow> bool" where
  "aabbIntersects a b =
     (if x_c (max_c a) < x_c (min_c b) \<or> x_c (max_c b) < x_c (min_c a) then False
      else if y_c (max_c a) < y_c (min_c b) \<or> y_c (max_c b) < y_c (min_c a) then False
      else True)"

section \<open>BruteForceBroadPhase (brute-force.ts)\<close>

record BruteForceBroadPhase =
  bf_entities :: "Entity list"
  bf_collisionTests :: nat

text \<open>The field initialisers \<open>_entities = []\<close> and \<open>_collisionTests = 0\<close>.\<close>

definition bf_new :: BruteForceBroadPhase where
  "bf_new = \<lparr>bf_entities = [], bf_collisionTests = 0\<rparr>"

text \<open>\<open>update\<close> stores a shallow copy of the array.\<close>

definition bf_update :: "BruteForceBroadPhase \<Rightarrow> Entity list \<Rightarrow> BruteForceBroadPhase" where
  "bf_update s entities = s\<lparr>bf_entities := entities\<rparr>"

text \<open>
  The body of the inner loop: the counter is incremented, then the pair is pushed when the
  boxes intersect. The loop state is the array \<open>pairs\<close> and the counter
  \<open>this._collisionTests\<close>.
\<close>

definition bf_step :: "Entity \<Rightarrow> Entity \<Rightarrow> (Entity \<times> Entity) list \<times> nat
    \<Rightarrow> (Entity \<times> Entity) list \<times> nat" where
  "bf_step entityA entityB st =
     (case st of (pairs, tests) \<Rightarrow>
        (if aabbIntersects (aabb entityA) (aabb entityB) then pairs @ [(entityA, entityB)]
         else pairs,
         tests + 1))"

text \<open>
  \<open>for (i = 0; i < n; i++) for (j = i + 1; j < n; j++)\<close> over an array \<open>es\<close>, with loop
  body \<open>f es[i] es[j]\<close>. Both detectors enumerate pairs with this loop nest.
\<close>

definition pair_loop :: "('a \<Rightarrow> 'a \<Rightarrow> 's \<Rightarrow> 's) \<Rightarrow> 'a list \<Rightarrow> 's \<Rightarrow> 's" where
  "pair_loop f es =
     fold (\<lambda>i. fold (\<lambda>j. f (es ! i) (es ! j)) [i + 1..<length es]) [0..<length es]"

text \<open>
  \<open>queryPairs\<close> starts from \<open>pairs = []\<close> and \<open>this._collisionTests = 0\<close>, runs the
  loop nest and returns \<open>pairs\<close>; the detector keeps the counter.
\<close>

definition bf_queryPairs ::
    "BruteForceBroadPhase \<Rightarrow> (Entity \<times> Entity) list \<times> BruteForceBroadPhase" where
  "bf_queryPairs s =
     (case pair_loop bf_step (bf_entities s) ([], 0) of
        (pairs, tests) \<Rightarrow> (pairs, s\<lparr>bf_collisionTests := tests\<rparr>))"

section \<open>The loop nest as a list of pairs\<close>

text \<open>The pairs \<open>(es[i], es[j])\<close>, \<open>i < j\<close>, in the order in which the loop nest visits them.\<close>

fun index_pairs :: "'a list \<Rightarrow> ('a \<times> 'a) list" where
  "index_pairs [] = []"
| "index_pairs (x # xs) = map (Pair x) xs @ index_pairs xs"

section \<open>SpatialGridBroadPhase (spatial-grid.ts)\<close>

text \<open>
  The constructor throws \<open>new Error(message)\<close>. Every access \<open>this.grid[col][row]\<close> of
  the model is checked against the allocated arrays, and an access outside them is
  reported as \<open>OutOfGrid\<close>: in JavaScript such a read yields \<open>undefined\<close> (so that the
  following \<open>.push\<close> or \<open>.length\<close> throws a TypeError) and such a write grows the array. A
  result \<open>Inr\<close> of the model therefore means that every access stayed inside the grid.
\<close>

datatype error = Error string | OutOfGrid

record SpatialGridOptions =
  opt_cellSize :: real
  opt_minX :: "real option"
  opt_minY :: "real option"
  opt_maxX :: real
  opt_maxY :: real

record SpatialGridBroadPhase =
  cellSize :: real
  minX :: real
  minY :: real
  maxX :: real
  maxY :: real
  numCols :: int
  numRows :: int
  grid :: "Entity list list list"
  collisionTests :: nat

text \<open>\<open>v ?? d\<close>\<close>

definition or_default :: "'a option \<Rightarrow> 'a \<Rightarrow> 'a" where
  "or_default v d = (case v of None \<Rightarrow> d | Some w \<Rightarrow> w)"

text \<open>
  The allocation loops of the constructor: \<open>this.grid[col] = []\<close> and
  \<open>this.grid[col][row] = []\<close> each assign at the index equal to the current length of the
  array, which appends.
\<close>

definition init_grid :: "int \<Rightarrow> int \<Rightarrow> Entity list list list" where
  "init_grid nc nr =
     fold (\<lambda>col g. fold (\<lambda>row g. g[col := g ! col @ [[]]]) [0..<nat nr] (g @ [[]]))
       [0..<nat nc] []"

definition construct :: "SpatialGridOptions \<Rightarrow> error + SpatialGridBroadPhase" where
  "construct options =
     (if opt_cellSize options \<le> 0 then Inl (Error ''cellSize must be greater than 0'')
      else if opt_maxX options \<le> or_default (opt_minX options) 0
        then Inl (Error ''maxX must be greater than minX'')
      else if opt_maxY options \<le> or_default (opt_minY options) 0
        then Inl (Error ''maxY must be greater than minY'')
      else
        (let cs = opt_cellSize options;
             x0 = or_default (opt_minX options) 0;
             y0 = or_default (opt_minY options) 0;
             x1 = opt_maxX options;
             y1 = opt_maxY options;
             nc = \<lceil>(x1 - x0) / cs\<rceil>;
             nr = \<lceil>(y1 - y0) / cs\<rceil>
         in Inr \<lparr>cellSize = cs, minX = x0, minY = y0, maxX = x1, maxY = y1,
                 numCols = nc, numRows = nr, grid = init_grid nc nr, collisionTests = 0\<rparr>))"

text \<open>\<open>worldToGrid\<close> returns the pair \<open>(col, row)\<close>.\<close>

definition worldToGrid :: "SpatialGridBroadPhase \<Rightarrow> real \<Rightarrow> real \<Rightarrow> int \<times> int" where
  "worldToGrid s x y =
     (let col = \<lfloor>(x - minX s) / cellSize s\<rfloor>;
          row = \<lfloor>(y - minY s) / cellSize s\<rfloor>
      in (max 0 (min col (numCols s - 1)), max 0 (min row (numRows s - 1))))"

text \<open>Whether \<open>grid[col][row]\<close> lies inside the allocated arrays.\<close>

definition in_grid :: "Entity list list list \<Rightarrow> int \<Rightarrow> int \<Rightarrow> bool" where
  "in_grid g col row =
     (0 \<le> col \<and> nat col < length g \<and> 0 \<le> row \<and> nat row < length (g ! nat col))"

text \<open>\<open>grid[col][row]\<close>, \<open>grid[col][row] = v\<close> and \<open>grid[col][row].push(entity)\<close>.\<close>

definition get_cell :: "Entity list list list \<Rightarrow> int \<Rightarrow> int \<Rightarrow> error + Entity list" where
  "get_cell g col row =
     (if in_grid g col row then Inr (g ! nat col ! nat row) else Inl OutOfGrid)"

definition set_cell ::
    "Entity list list list \<Rightarrow> int \<Rightarrow> int \<Rightarrow> Entity list \<Rightarrow> error + Entity list list list" where
  "set_cell g col row v =
     (if in_grid g col row then Inr (g[nat col := (g ! nat col)[nat row := v]])
      else Inl OutOfGrid)"

definition push_cell ::
    "Entity list list list \<Rightarrow> int \<Rightarrow> int \<Rightarrow> Entity \<Rightarrow> error + Entity list list list" where
  "push_cell g col row entity =
     (if in_grid g col row
      then Inr (g[nat col := (g ! nat col)[nat row := g ! nat col ! nat row @ [entity]]])
      else Inl OutOfGrid)"

text \<open>
  A \<open>for\<close> loop over the indices (or array elements) \<open>ks\<close> whose body may fail: the
  first failure ends the loop, as the exception would.
\<close>

fun for_each :: "'k list \<Rightarrow> ('k \<Rightarrow> 's \<Rightarrow> error + 's) \<Rightarrow> 's \<Rightarrow> error + 's" where
  "for_each [] body s = Inr s"
| "for_each (k # ks) body s =
     (case body k s of Inl e \<Rightarrow> Inl e | Inr s' \<Rightarrow> for_each ks body s')"

text \<open>
  The body of the loop \<open>for (const entity of entities)\<close> of \<open>update\<close>: the cells of
  the two corners, then the loops \<open>for (col = minCell.col; col <= maxCell.col; col++)\<close>,
  \<open>for (row = minCell.row; row <= maxCell.row; row++)\<close> with the push.
\<close>

definition insert_entity :: "SpatialGridBroadPhase \<Rightarrow> Entity \<Rightarrow> Entity list list list
    \<Rightarrow> error + Entity list list list" where
  "insert_entity s entity g =
     (case worldToGrid s (x_c (min_c (aabb entity))) (y_c (min_c (aabb entity))) of
        (minCol, minRow) \<Rightarrow>
      case worldToGrid s (x_c (max_c (aabb entity))) (y_c (max_c (aabb entity))) of
        (maxCol, maxRow) \<Rightarrow>
          for_each [minCol..maxCol]
            (\<lambda>col. for_each [minRow..maxRow] (\<lambda>row g. push_cell g col row entity)) g)"

text \<open>
  \<open>update\<close>: the clearing loops \<open>for (col = 0; col < numCols; col++)\<close>,
  \<open>for (row = 0; row < numRows; row++)\<close> with \<open>this.grid[col][row] = []\<close>, then the
  loop over the entities.
\<close>

definition update :: "SpatialGridBroadPhase \<Rightarrow> Entity list \<Rightarrow> error + SpatialGridBroadPhase" where
  "update s entities =
     (case for_each [0..numCols s - 1]
             (\<lambda>col. for_each [0..numRows s - 1] (\<lambda>row g. set_cell g col row []))
             (grid s) of
        Inl e \<Rightarrow> Inl e
      | Inr g0 \<Rightarrow>
          (case for_each entities (insert_entity s) g0 of
             Inl e \<Rightarrow> Inl e
           | Inr g1 \<Rightarrow> Inr (s\<lparr>grid := g1\<rparr>)))"

text \<open>
  The template literal \<open>`${entityA.id}:${entityB.id}`\<close>. A string id is inserted as it
  is; how the runtime prints a number is the parameter \<open>numstr\<close>.
\<close>

fun template_str :: "(real \<Rightarrow> string) \<Rightarrow> ident \<Rightarrow> string" where
  "template_str numstr (Num n) = numstr n"
| "template_str numstr (Str s) = s"

definition pair_key :: "(real \<Rightarrow> string) \<Rightarrow> Entity \<Rightarrow> Entity \<Rightarrow> string" where
  "pair_key numstr entityA entityB =
     template_str numstr (id_e entityA) @ '':'' @ template_str numstr (id_e entityB)"

text \<open>
  The body of the innermost loop of \<open>queryPairs\<close>. The loop state is the array \<open>pairs\<close>,
  the set of keys of the object \<open>checked\<close> and the counter \<open>this._collisionTests\<close>. (Every
  key contains a colon, so no key is a property that \<open>{}\<close> inherits.)
\<close>

definition grid_step :: "(real \<Rightarrow> string) \<Rightarrow> Entity \<Rightarrow> Entity
    \<Rightarrow> (Entity \<times> Entity) list \<times> string set \<times> nat
    \<Rightarrow> (Entity \<times> Entity) list \<times> string set \<times> nat" where
  "grid_step numstr entityA entityB st =
     (case st of (pairs, checked, tests) \<Rightarrow>
        (let hashA = pair_key numstr entityA entityB;
             hashB = pair_key numstr entityB entityA
         in if hashA \<in> checked \<or> hashB \<in> checked then (pairs, checked, tests)
            else (if aabbIntersects (aabb entityA) (aabb entityB)
                  then pairs @ [(entityA, entityB)] else pairs,
                  insert hashB (insert hashA checked),
                  tests + 1)))"

definition queryPairs :: "(real \<Rightarrow> string) \<Rightarrow> SpatialGridBroadPhase
    \<Rightarrow> error + (Entity \<times> Entity) list \<times> SpatialGridBroadPhase" where
  "queryPairs numstr s =
     (case for_each [0..numCols s - 1]
             (\<lambda>col. for_each [0..numRows s - 1]
                (\<lambda>row st.
                   case get_cell (grid s) col row of
                     Inl e \<Rightarrow> Inl e
                   | Inr entitiesInCell \<Rightarrow>
                       if length entitiesInCell < 2 then Inr st
                       else Inr (pair_loop (grid_step numstr) entitiesInCell st)))
             ([], {}, 0) of
        Inl e \<Rightarrow> Inl e
      | Inr (pairs, checked, tests) \<Rightarrow> Inr (pairs, s\<lparr>collisionTests := tests\<rparr>))"

section \<open>Vocabulary of the properties\<close>

text \<open>The states a grid detector can be in: constructed, then updated and queried.\<close>

inductive reachable :: "SpatialGridBroadPhase \<Rightarrow> bool" where
  reachable_construct: "construct options = Inr s \<Longrightarrow> reachable s"
| reachable_update: "reachable s \<Longrightarrow> update s entities = Inr s' \<Longrightarrow> reachable s'"
| reachable_query: "reachable s \<Longrightarrow> queryPairs numstr s = Inr (pairs, s') \<Longrightarrow> reachable s'"

definition valid_options :: "SpatialGridOptions \<Rightarrow> bool" where
  "valid_options options =
     (opt_cellSize options > 0
      \<and> opt_maxX options > or_default (opt_minX options) 0
      \<and> opt_maxY options > or_default (opt_minY options) 0)"

definition unique_ids :: "Entity list \<Rightarrow> bool" where
  "unique_ids entities = distinct (map id_e entities)"

text \<open>The unordered id-pair of a returned pair, and those of a result.\<close>

definition id_pair :: "Entity \<times> Entity \<Rightarrow> ident set" where
  "id_pair p = {id_e (fst p), id_e (snd p)}"

definition id_pairs :: "(Entity \<times> Entity) list \<Rightarrow> ident set set" where
  "id_pairs pairs = id_pair ` set pairs"

text \<open>The invariant of the data model: \<open>min.x \<le> max.x\<close> and \<open>min.y \<le> max.y\<close>.\<close>

definition well_formed :: "AABB \<Rightarrow> bool" where
  "well_formed b = (x_c (min_c b) \<le> x_c (max_c b) \<and> y_c (min_c b) \<le> y_c (max_c b))"

text \<open>
  The decimal numeral that a template literal prints for an integer-valued number
  (of magnitude below \<open>10^21\<close>); it instantiates \<open>numstr\<close> in the examples.
\<close>

fun dec_nat :: "nat \<Rightarrow> string" where
  "dec_nat n =
     (if n < 10 then [''0123456789'' ! n]
      else dec_nat (n div 10) @ [''0123456789'' ! (n mod 10)])"

definition number_str :: "real \<Rightarrow> string" where
  "number_str r = (if r < 0 then CHR ''-'' # dec_nat (nat \<lfloor>- r\<rfloor>) else dec_nat (nat \<lfloor>r\<rfloor>))"

text \<open>
  The usage of the README and of the demo: construct a detector, \<open>update\<close> it with
  the snapshot, then \<open>queryPairs\<close>.
\<close>

definition grid_run :: "(real \<Rightarrow> string) \<Rightarrow> SpatialGridOptions \<Rightarrow> Entity list
    \<Rightarrow> error + (Entity \<times> Entity) list \<times> SpatialGridBroadPhase" where
  "grid_run numstr options entities =
     (case construct options of
        Inl e \<Rightarrow> Inl e
      | Inr s \<Rightarrow> (case update s entities of Inl e \<Rightarrow> Inl e | Inr s' \<Rightarrow> queryPairs numstr s'))"

definition grid_pairs :: "(real \<Rightarrow> string) \<Rightarrow> SpatialGridOptions \<Rightarrow> Entity list
    \<Rightarrow> error + (Entity \<times> Entity) list" where
  "grid_pairs numstr options entities =
     (case grid_run numstr options entities of Inl e \<Rightarrow> Inl e | Inr r \<Rightarrow> Inr (fst r))"

definition bf_run :: "Entity list \<Rightarrow> (Entity \<times> Entity) list \<times> BruteForceBroadPhase" where
  "bf_run entities = bf_queryPairs (bf_update bf_new entities)"

text \<open>The grid is allocated: \<open>numCols\<close> columns of \<open>numRows\<close> cells each.\<close>

definition allocated :: "Entity list list list \<Rightarrow> int \<Rightarrow> int \<Rightarrow> bool" where
  "allocated g nc nr = (length g = nat nc \<and> (\<forall>column \<in> set g. length column = nat nr))"

text \<open>The cell \<open>(col, row)\<close> lies in the rectangle of cells from \<open>minCell\<close> to \<open>maxCell\<close>.\<close>

definition covers :: "SpatialGridBroadPhase \<Rightarrow> int \<Rightarrow> int \<Rightarrow> Entity \<Rightarrow> bool" where
  "covers s col row entity =
     (fst (worldToGrid s (x_c (min_c (aabb entity))) (y_c (min_c (aabb entity)))) \<le> col
      \<and> col \<le> fst (worldToGrid s (x_c (max_c (aabb entity))) (y_c (max_c (aabb entity))))
      \<and> snd (worldToGrid s (x_c (min_c (aabb entity))) (y_c (min_c (aabb entity)))) \<le> row
      \<and> row \<le> snd (worldToGrid s (x_c (max_c (aabb entity))) (y_c (max_c (aabb entity)))))"

text \<open>What holds of every reachable detector.\<close>

definition grid_inv :: "SpatialGridBroadPhase \<Rightarrow> bool" where
  "grid_inv s =
     (0 < cellSize s \<and> 1 \<le> numCols s \<and> 1 \<le> numRows s
      \<and> allocated (grid s) (numCols s) (numRows s))"

text \<open>
  An in-range access rewrites one cell: \<open>put\<close> stores a cell, \<open>upd_cell\<close> is the
  checked read-modify-write that \<open>set_cell\<close> and \<open>push_cell\<close> instantiate.
\<close>

definition put :: "Entity list list list \<Rightarrow> int \<Rightarrow> int \<Rightarrow> Entity list \<Rightarrow> Entity list list list" where
  "put g col row v = g[nat col := (g ! nat col)[nat row := v]]"

definition upd_cell :: "(Entity list \<Rightarrow> Entity list) \<Rightarrow> Entity list list list \<Rightarrow> int \<Rightarrow> int
    \<Rightarrow> error + Entity list list list" where
  "upd_cell f g col row =
     (if in_grid g col row then Inr (put g col row (f (g ! nat col ! nat row))) else Inl OutOfGrid)"

definition in_range :: "int \<Rightarrow> int list \<Rightarrow> bool" where
  "in_range n ks = (\<forall>k \<in> set ks. 0 \<le> k \<and> k < n)"

text \<open>
  The pairs that \<open>queryPairs\<close> visits: cell after cell in the order of its two outer
  loops, and in each cell the index pairs \<open>i < j\<close>.
\<close>

definition candidates :: "SpatialGridBroadPhase \<Rightarrow> (Entity \<times> Entity) list" where
  "candidates s =
     concat (map (\<lambda>col. concat (map (\<lambda>row. index_pairs (grid s ! nat col ! nat row))
                                   [0..numRows s - 1]))
                 [0..numCols s - 1])"

text \<open>
  The error names of the specification, as the messages that the constructor throws.
\<close>

definition InvalidCellSize :: error where
  "InvalidCellSize = Error ''cellSize must be greater than 0''"

definition InvalidBounds :: "error set" where
  "InvalidBounds =
     {Error ''maxX must be greater than minX'', Error ''maxY must be greater than minY''}"

text \<open>
  An invariant of the loop state \<open>(pairs, checked, tests)\<close> of \<open>queryPairs\<close>: both
  keys of every pushed pair are marked, and no two pushed pairs have the same unordered
  id-pair.
\<close>

definition pushed_marked :: "(real \<Rightarrow> string)
    \<Rightarrow> (Entity \<times> Entity) list \<times> string set \<times> nat \<Rightarrow> bool" where
  "pushed_marked numstr st =
     ((\<forall>p \<in> set (fst st).
         pair_key numstr (fst p) (snd p) \<in> fst (snd st)
         \<and> pair_key numstr (snd p) (fst p) \<in> fst (snd st))
      \<and> distinct (map id_pair (fst st)))"

section \<open>Example inputs\<close>

text \<open>
  A box from its corners and an entity from its id and box; a grid of 2 by 2 cells of
  size 32 and the detector that the constructor returns for it.
\<close>

abbreviation mk_box :: "real \<Rightarrow> real \<Rightarrow> real \<Rightarrow> real \<Rightarrow> AABB" where
  "mk_box x0 y0 x1 y1 \<equiv> \<lparr>min_c = \<lparr>x_c = x0, y_c = y0\<rparr>, max_c = \<lparr>x_c = x1, y_c = y1\<rparr>\<rparr>"

abbreviation mk_entity :: "ident \<Rightarrow> AABB \<Rightarrow> Entity" where
  "mk_entity i b \<equiv> \<lparr>id_e = i, aabb = b\<rparr>"

abbreviation grid_2x2 :: SpatialGridOptions where
  "grid_2x2 \<equiv>
     \<lparr>opt_cellSize = 32, opt_minX = None, opt_minY = None, opt_maxX = 64, opt_maxY = 64\<rparr>"

abbreviation fresh_2x2 :: SpatialGridBroadPhase where
  "fresh_2x2 \<equiv>
     \<lparr>cellSize = 32, minX = 0, minY = 0, maxX = 64, maxY = 64, numCols = 2, numRows = 2,
      grid = [[[], []], [[], []]], collisionTests = 0\<rparr>"

text \<open>
  The detector that the constructor leaves for \<open>cellSize = 4\<close> and
  \<open>maxX = maxY = 2^-1074\<close> (the smallest positive double, printed \<open>5e-324\<close>). The three
  validity checks pass. The source divides doubles: the runtime rounds the quotient
  \<open>2^-1076\<close> to the nearest double, which is 0, so that \<open>Math.ceil\<close> gives 0 columns
  and 0 rows and the allocation loops do not run. (The quotient of \<open>construct\<close> is the
  exact one.)
\<close>

abbreviation no_cells :: SpatialGridBroadPhase where
  "no_cells \<equiv>
     \<lparr>cellSize = 4, minX = 0, minY = 0, maxX = 1 / 2 ^ 1074, maxY = 1 / 2 ^ 1074,
      numCols = 0, numRows = 0, grid = [], collisionTests = 0\<rparr>"

section \<open>Auxiliary lemmas\<close>

subsection \<open>The loop nest visits the index pairs\<close>

lemma fold_nth_upt:
  "fold (\<lambda>j. g (xs ! j)) [k..<length xs] = fold g (drop k xs)"
proof (induction xs arbitrary: k)
  case Nil
  then show ?case by simp
next
  case (Cons x xs)
  show ?case
  proof (cases k)
    case 0
    have "[0..<length (x # xs)] = 0 # map Suc [0..<length xs]"
      by (simp add: upt_conv_Cons map_Suc_upt del: upt_Suc)
    then have "fold (\<lambda>j. g ((x # xs) ! j)) [0..<length (x # xs)]
        = fold (\<lambda>j. g (xs ! j)) [0..<length xs] \<circ> g x"
      by (simp add: fold_map comp_def)
    with Cons.IH [of 0] 0 show ?thesis by simp
  next
    case (Suc k')
    have "[Suc k'..<length (x # xs)] = map Suc [k'..<length xs]"
      by (simp add: map_Suc_upt del: upt_Suc)
    then have "fold (\<lambda>j. g ((x # xs) ! j)) [Suc k'..<length (x # xs)]
        = fold (\<lambda>j. g (xs ! j)) [k'..<length xs]"
      by (simp add: fold_map comp_def)
    with Cons.IH [of k'] Suc show ?thesis by simp
  qed
qed

lemma pair_loop_Cons:
  "pair_loop f (x # xs) = pair_loop f xs \<circ> fold (f x) xs"
proof -
  have upt: "[0..<length (x # xs)] = 0 # map Suc [0..<length xs]"
    by (simp add: upt_conv_Cons map_Suc_upt del: upt_Suc)
  have inner: "fold (\<lambda>j. f ((x # xs) ! Suc i) ((x # xs) ! j)) [Suc i + 1..<length (x # xs)]
      = fold (\<lambda>j. f (xs ! i) (xs ! j)) [i + 1..<length xs]" for i
  proof -
    have "[Suc i + 1..<length (x # xs)] = map Suc [i + 1..<length xs]"
      by (simp add: map_Suc_upt del: upt_Suc)
    then show ?thesis by (simp add: fold_map comp_def)
  qed
  have first: "fold (\<lambda>j. f ((x # xs) ! 0) ((x # xs) ! j)) [0 + 1..<length (x # xs)]
      = fold (f x) xs"
    using fold_nth_upt [of "f x" "x # xs" 1] by simp
  have rest: "fold (\<lambda>i. fold (\<lambda>j. f ((x # xs) ! i) ((x # xs) ! j)) [i + 1..<length (x # xs)])
        (map Suc [0..<length xs])
      = fold (\<lambda>i. fold (\<lambda>j. f (xs ! i) (xs ! j)) [i + 1..<length xs]) [0..<length xs]"
    unfolding fold_map comp_def inner ..
  have "pair_loop f (x # xs)
      = fold (\<lambda>i. fold (\<lambda>j. f ((x # xs) ! i) ((x # xs) ! j)) [i + 1..<length (x # xs)])
          (0 # map Suc [0..<length xs])"
    unfolding pair_loop_def upt ..
  also have "\<dots> = fold (\<lambda>i. fold (\<lambda>j. f ((x # xs) ! i) ((x # xs) ! j)) [i + 1..<length (x # xs)])
          (map Suc [0..<length xs])
        \<circ> fold (\<lambda>j. f ((x # xs) ! 0) ((x # xs) ! j)) [0 + 1..<length (x # xs)]"
    by (rule fold_Cons)
  also have "\<dots> = pair_loop f xs \<circ> fold (f x) xs"
    unfolding rest first pair_loop_def ..
  finally show ?thesis .
qed

lemma pair_loop_index_pairs:
  "pair_loop f es = fold (\<lambda>(a, b). f a b) (index_pairs es)"
proof (induction es)
  case Nil
  show ?case by (simp add: pair_loop_def)
next
  case (Cons x xs)
  have "fold (\<lambda>(a, b). f a b) (map (Pair x) xs) = fold (f x) xs"
    by (simp add: fold_map comp_def)
  with Cons show ?case
    by (simp add: pair_loop_Cons)
qed

lemma length_index_pairs:
  "length (index_pairs es) = length es * (length es - 1) div 2"
proof (induction es)
  case Nil
  show ?case by simp
next
  case (Cons x xs)
  have "length xs + length xs * (length xs - 1) div 2 = (length xs + 1) * length xs div 2"
    by (cases "length xs") (simp_all add: algebra_simps)
  with Cons show ?case by simp
qed

lemma fold_bf_step:
  "fold (\<lambda>(a, b). bf_step a b) ps (acc, n)
     = (acc @ filter (\<lambda>(a, b). aabbIntersects (aabb a) (aabb b)) ps, n + length ps)"
  by (induction ps arbitrary: acc n) (auto simp: bf_step_def)

lemma bf_queryPairs_eq:
  "bf_queryPairs s =
     (filter (\<lambda>(a, b). aabbIntersects (aabb a) (aabb b)) (index_pairs (bf_entities s)),
      s\<lparr>bf_collisionTests := length (index_pairs (bf_entities s))\<rparr>)"
  by (simp add: bf_queryPairs_def pair_loop_index_pairs fold_bf_step)

subsection \<open>Allocation\<close>

lemma init_column:
  "fold (\<lambda>row g. g[length g0 := g ! length g0 @ [[]]]) [0..<n] (g0 @ [[]])
     = g0 @ [replicate n []]"
proof (induction n)
  case 0
  show ?case by simp
next
  case (Suc n)
  have "replicate n [] @ [[]] = replicate (Suc n) ([] :: 'a list)"
    by (simp add: replicate_append_same)
  with Suc show ?case by simp
qed

lemma init_grid_eq: "init_grid nc nr = replicate (nat nc) (replicate (nat nr) [])"
proof -
  have "fold (\<lambda>col g. fold (\<lambda>row g. g[col := g ! col @ [[]]]) [0..<m] (g @ [[]])) [0..<n] []
      = replicate n (replicate m ([] :: Entity list))" for n m
  proof (induction n)
    case 0
    show ?case by simp
  next
    case (Suc n)
    have "fold (\<lambda>row g. g[n := g ! n @ [[]]]) [0..<m] (replicate n (replicate m []) @ [[]])
        = replicate n (replicate m []) @ [replicate m ([] :: Entity list)]"
      using init_column [of "replicate n (replicate m [])" m] by simp
    with Suc show ?case by (simp add: replicate_append_same)
  qed
  then show ?thesis by (simp add: init_grid_def)
qed

lemma allocated_init: "allocated (init_grid nc nr) nc nr"
  by (simp add: init_grid_eq allocated_def)

subsection \<open>Loops that cannot fail\<close>

lemma for_each_inv:
  assumes "\<And>k s. k \<in> set ks \<Longrightarrow> I s \<Longrightarrow> body k s = Inr (h k s) \<and> I (h k s)"
    and "I s"
  shows "for_each ks body s = Inr (fold h ks s) \<and> I (fold h ks s)"
  using assms
proof (induction ks arbitrary: s)
  case Nil
  then show ?case by simp
next
  case (Cons k ks)
  from Cons.prems have step: "body k s = Inr (h k s)" "I (h k s)" by simp_all
  have "for_each ks body (h k s) = Inr (fold h ks (h k s)) \<and> I (fold h ks (h k s))"
    by (rule Cons.IH) (simp_all add: Cons.prems step)
  with step show ?case by simp
qed

subsection \<open>Cells of an allocated grid\<close>

lemma allocated_column:
  "allocated g nc nr \<Longrightarrow> i < nat nc \<Longrightarrow> length (g ! i) = nat nr"
  by (simp add: allocated_def)

lemma in_grid_allocated:
  "allocated g nc nr \<Longrightarrow> 0 \<le> col \<Longrightarrow> col < nc \<Longrightarrow> 0 \<le> row \<Longrightarrow> row < nr \<Longrightarrow> in_grid g col row"
  by (simp add: in_grid_def allocated_column) (simp add: allocated_def)

lemma allocated_put: "allocated g nc nr \<Longrightarrow> allocated (put g col row v) nc nr"
proof (cases "nat col < length g")
  case True
  assume a: "allocated g nc nr"
  then have "length ((g ! nat col)[nat row := v]) = nat nr"
    using True by (simp add: allocated_def)
  moreover have "set (put g col row v) \<subseteq> insert ((g ! nat col)[nat row := v]) (set g)"
    unfolding put_def by (rule set_update_subset_insert)
  ultimately show ?thesis
    using a by (auto simp: allocated_def put_def)
next
  case False
  assume "allocated g nc nr"
  with False show ?thesis by (simp add: put_def list_update_beyond)
qed

lemma nth_put:
  assumes "allocated g nc nr" "0 \<le> col" "col < nc" "0 \<le> row" "row < nr"
    "0 \<le> c" "c < nc" "0 \<le> r" "r < nr"
  shows "put g col row v ! nat c ! nat r = (if c = col \<and> r = row then v else g ! nat c ! nat r)"
proof -
  have len: "nat col < length g" "nat c < length g"
    using assms by (simp_all add: allocated_def)
  have rows: "nat row < length (g ! nat col)"
    using assms by (simp add: allocated_column)
  have neq: "nat c = nat col \<longleftrightarrow> c = col" "nat r = nat row \<longleftrightarrow> r = row"
    using assms by auto
  show ?thesis
    using len rows neq by (auto simp: put_def nth_list_update)
qed

lemma set_cell_upd: "set_cell g col row v = upd_cell (\<lambda>_. v) g col row"
  by (simp add: set_cell_def upd_cell_def put_def)

lemma push_cell_upd: "push_cell g col row entity = upd_cell (\<lambda>cell. cell @ [entity]) g col row"
  by (simp add: push_cell_def upd_cell_def put_def)

lemma rows_loop:
  assumes "allocated g nc nr" "0 \<le> col" "col < nc" "in_range nr rows" "distinct rows"
  shows "\<exists>g'. for_each rows (\<lambda>row g. upd_cell f g col row) g = Inr g' \<and> allocated g' nc nr
           \<and> (\<forall>c r. 0 \<le> c \<and> c < nc \<and> 0 \<le> r \<and> r < nr \<longrightarrow>
                 g' ! nat c ! nat r =
                   (if c = col \<and> r \<in> set rows then f (g ! nat c ! nat r) else g ! nat c ! nat r))"
  using assms(1,4,5)
proof (induction rows arbitrary: g)
  case Nil
  then show ?case by simp
next
  case (Cons k ks)
  let ?g1 = "put g col k (f (g ! nat col ! nat k))"
  from Cons.prems have k: "0 \<le> k" "k < nr" "k \<notin> set ks" and ks: "in_range nr ks" "distinct ks"
    by (simp_all add: in_range_def)
  have first: "upd_cell f g col k = Inr ?g1"
    using in_grid_allocated [OF Cons.prems(1) assms(2,3) k(1,2)] by (simp add: upd_cell_def)
  have alloc1: "allocated ?g1 nc nr"
    using Cons.prems(1) by (rule allocated_put)
  from Cons.IH [OF alloc1 ks] obtain g' where
    run: "for_each ks (\<lambda>row g. upd_cell f g col row) ?g1 = Inr g'" and
    alloc': "allocated g' nc nr" and
    cells: "\<And>c r. 0 \<le> c \<and> c < nc \<and> 0 \<le> r \<and> r < nr \<Longrightarrow>
       g' ! nat c ! nat r =
         (if c = col \<and> r \<in> set ks then f (?g1 ! nat c ! nat r) else ?g1 ! nat c ! nat r)"
    by blast
  have "g' ! nat c ! nat r =
      (if c = col \<and> r \<in> set (k # ks) then f (g ! nat c ! nat r) else g ! nat c ! nat r)"
    if cr: "0 \<le> c \<and> c < nc \<and> 0 \<le> r \<and> r < nr" for c r
  proof -
    have "?g1 ! nat c ! nat r
        = (if c = col \<and> r = k then f (g ! nat col ! nat k) else g ! nat c ! nat r)"
      using cr by (intro nth_put [OF Cons.prems(1) assms(2,3) k(1,2)]) simp_all
    with cells [OF cr] k(3) show ?thesis by auto
  qed
  with first run alloc' show ?case by simp
qed

lemma cols_loop:
  assumes "allocated g nc nr" "in_range nc cols" "distinct cols" "in_range nr rows" "distinct rows"
  shows "\<exists>g'. for_each cols (\<lambda>col. for_each rows (\<lambda>row g. upd_cell f g col row)) g = Inr g'
           \<and> allocated g' nc nr
           \<and> (\<forall>c r. 0 \<le> c \<and> c < nc \<and> 0 \<le> r \<and> r < nr \<longrightarrow>
                 g' ! nat c ! nat r =
                   (if c \<in> set cols \<and> r \<in> set rows then f (g ! nat c ! nat r)
                    else g ! nat c ! nat r))"
  using assms(1,2,3)
proof (induction cols arbitrary: g)
  case Nil
  then show ?case by simp
next
  case (Cons k ks)
  from Cons.prems have k: "0 \<le> k" "k < nc" "k \<notin> set ks" and ks: "in_range nc ks" "distinct ks"
    by (simp_all add: in_range_def)
  from rows_loop [OF Cons.prems(1) k(1,2) assms(4,5), of f] obtain g1 where
    first: "for_each rows (\<lambda>row g. upd_cell f g k row) g = Inr g1" and
    alloc1: "allocated g1 nc nr" and
    cells1: "\<And>c r. 0 \<le> c \<and> c < nc \<and> 0 \<le> r \<and> r < nr \<Longrightarrow>
       g1 ! nat c ! nat r =
         (if c = k \<and> r \<in> set rows then f (g ! nat c ! nat r) else g ! nat c ! nat r)"
    by blast
  from Cons.IH [OF alloc1 ks] obtain g' where
    run: "for_each ks (\<lambda>col. for_each rows (\<lambda>row g. upd_cell f g col row)) g1 = Inr g'" and
    alloc': "allocated g' nc nr" and
    cells: "\<And>c r. 0 \<le> c \<and> c < nc \<and> 0 \<le> r \<and> r < nr \<Longrightarrow>
       g' ! nat c ! nat r =
         (if c \<in> set ks \<and> r \<in> set rows then f (g1 ! nat c ! nat r) else g1 ! nat c ! nat r)"
    by blast
  have "g' ! nat c ! nat r =
      (if c \<in> set (k # ks) \<and> r \<in> set rows then f (g ! nat c ! nat r) else g ! nat c ! nat r)"
    if cr: "0 \<le> c \<and> c < nc \<and> 0 \<le> r \<and> r < nr" for c r
    using cells [OF cr] cells1 [OF cr] k(3) by auto
  with first run alloc' show ?case by simp
qed

lemma in_range_upto: "0 \<le> a \<Longrightarrow> b < n \<Longrightarrow> in_range n [a..b]"
  by (simp add: in_range_def)

subsection \<open>The cell mapping\<close>

lemma worldToGrid_range:
  assumes "1 \<le> numCols s" "1 \<le> numRows s"
  shows "0 \<le> fst (worldToGrid s x y)" "fst (worldToGrid s x y) < numCols s"
    "0 \<le> snd (worldToGrid s x y)" "snd (worldToGrid s x y) < numRows s"
  using assms by (simp_all add: worldToGrid_def Let_def)

subsection \<open>What update leaves in the cells\<close>

lemma insert_entity_cells:
  assumes "allocated g (numCols s) (numRows s)" "1 \<le> numCols s" "1 \<le> numRows s"
  shows "\<exists>g'. insert_entity s entity g = Inr g' \<and> allocated g' (numCols s) (numRows s)
           \<and> (\<forall>c r. 0 \<le> c \<and> c < numCols s \<and> 0 \<le> r \<and> r < numRows s \<longrightarrow>
                 g' ! nat c ! nat r
                   = g ! nat c ! nat r @ (if covers s c r entity then [entity] else []))"
proof -
  let ?lo = "worldToGrid s (x_c (min_c (aabb entity))) (y_c (min_c (aabb entity)))"
  let ?hi = "worldToGrid s (x_c (max_c (aabb entity))) (y_c (max_c (aabb entity)))"
  have cols: "in_range (numCols s) [fst ?lo..fst ?hi]"
    by (intro in_range_upto worldToGrid_range assms(2,3))
  have rows: "in_range (numRows s) [snd ?lo..snd ?hi]"
    by (intro in_range_upto worldToGrid_range assms(2,3))
  from cols_loop [OF assms(1) cols distinct_upto rows distinct_upto, of "\<lambda>cell. cell @ [entity]"]
  obtain g' where
    run: "for_each [fst ?lo..fst ?hi]
            (\<lambda>col. for_each [snd ?lo..snd ?hi] (\<lambda>row g. push_cell g col row entity)) g = Inr g'" and
    alloc': "allocated g' (numCols s) (numRows s)" and
    cells: "\<And>c r. 0 \<le> c \<and> c < numCols s \<and> 0 \<le> r \<and> r < numRows s \<Longrightarrow>
       g' ! nat c ! nat r =
         (if c \<in> set [fst ?lo..fst ?hi] \<and> r \<in> set [snd ?lo..snd ?hi]
          then g ! nat c ! nat r @ [entity] else g ! nat c ! nat r)"
    unfolding push_cell_upd by blast
  have "insert_entity s entity g = Inr g'"
    using run by (simp add: insert_entity_def case_prod_beta)
  moreover have "g' ! nat c ! nat r
      = g ! nat c ! nat r @ (if covers s c r entity then [entity] else [])"
    if cr: "0 \<le> c \<and> c < numCols s \<and> 0 \<le> r \<and> r < numRows s" for c r
    using cells [OF cr] by (auto simp: covers_def)
  ultimately show ?thesis using alloc' by blast
qed

lemma populate_cells:
  assumes "1 \<le> numCols s" "1 \<le> numRows s"
  shows "allocated g (numCols s) (numRows s) \<Longrightarrow>
         \<exists>g'. for_each entities (insert_entity s) g = Inr g' \<and> allocated g' (numCols s) (numRows s)
           \<and> (\<forall>c r. 0 \<le> c \<and> c < numCols s \<and> 0 \<le> r \<and> r < numRows s \<longrightarrow>
                 g' ! nat c ! nat r = g ! nat c ! nat r @ filter (covers s c r) entities)"
proof (induction entities arbitrary: g)
  case Nil
  then show ?case by simp
next
  case (Cons e es)
  from insert_entity_cells [OF Cons.prems assms, of e] obtain g1 where
    first: "insert_entity s e g = Inr g1" and
    alloc1: "allocated g1 (numCols s) (numRows s)" and
    cells1: "\<And>c r. 0 \<le> c \<and> c < numCols s \<and> 0 \<le> r \<and> r < numRows s \<Longrightarrow>
       g1 ! nat c ! nat r = g ! nat c ! nat r @ (if covers s c r e then [e] else [])"
    by blast
  from Cons.IH [OF alloc1] obtain g' where
    run: "for_each es (insert_entity s) g1 = Inr g'" and
    alloc': "allocated g' (numCols s) (numRows s)" and
    cells: "\<And>c r. 0 \<le> c \<and> c < numCols s \<and> 0 \<le> r \<and> r < numRows s \<Longrightarrow>
       g' ! nat c ! nat r = g1 ! nat c ! nat r @ filter (covers s c r) es"
    by blast
  have "g' ! nat c ! nat r = g ! nat c ! nat r @ filter (covers s c r) (e # es)"
    if cr: "0 \<le> c \<and> c < numCols s \<and> 0 \<le> r \<and> r < numRows s" for c r
    using cells [OF cr] cells1 [OF cr] by simp
  with first run alloc' show ?case by simp
qed

lemma update_cells:
  assumes "grid_inv s"
  shows "\<exists>g'. update s entities = Inr (s\<lparr>grid := g'\<rparr>) \<and> allocated g' (numCols s) (numRows s)
           \<and> (\<forall>c r. 0 \<le> c \<and> c < numCols s \<and> 0 \<le> r \<and> r < numRows s \<longrightarrow>
                 g' ! nat c ! nat r = filter (covers s c r) entities)"
proof -
  from assms have alloc: "allocated (grid s) (numCols s) (numRows s)"
    and dims: "1 \<le> numCols s" "1 \<le> numRows s"
    by (simp_all add: grid_inv_def)
  have cols: "in_range (numCols s) [0..numCols s - 1]" and rows: "in_range (numRows s) [0..numRows s - 1]"
    by (simp_all add: in_range_def)
  from cols_loop [OF alloc cols distinct_upto rows distinct_upto, of "\<lambda>_. []"] obtain g0 where
    clear: "for_each [0..numCols s - 1]
              (\<lambda>col. for_each [0..numRows s - 1] (\<lambda>row g. set_cell g col row [])) (grid s) = Inr g0" and
    alloc0: "allocated g0 (numCols s) (numRows s)" and
    cells0: "\<And>c r. 0 \<le> c \<and> c < numCols s \<and> 0 \<le> r \<and> r < numRows s \<Longrightarrow>
       g0 ! nat c ! nat r =
         (if c \<in> set [0..numCols s - 1] \<and> r \<in> set [0..numRows s - 1] then []
          else grid s ! nat c ! nat r)"
    unfolding set_cell_upd by blast
  from populate_cells [OF dims alloc0, of entities] obtain g' where
    run: "for_each entities (insert_entity s) g0 = Inr g'" and
    alloc': "allocated g' (numCols s) (numRows s)" and
    cells: "\<And>c r. 0 \<le> c \<and> c < numCols s \<and> 0 \<le> r \<and> r < numRows s \<Longrightarrow>
       g' ! nat c ! nat r = g0 ! nat c ! nat r @ filter (covers s c r) entities"
    by blast
  have "g' ! nat c ! nat r = filter (covers s c r) entities"
    if cr: "0 \<le> c \<and> c < numCols s \<and> 0 \<le> r \<and> r < numRows s" for c r
    using cells [OF cr] cells0 [OF cr] cr by simp
  moreover have "update s entities = Inr (s\<lparr>grid := g'\<rparr>)"
    using clear run by (simp add: update_def)
  ultimately show ?thesis using alloc' by blast
qed

subsection \<open>The invariant of the grid detector\<close>

lemma construct_valid:
  assumes "valid_options options"
  shows "construct options =
     Inr \<lparr>cellSize = opt_cellSize options,
          minX = or_default (opt_minX options) 0, minY = or_default (opt_minY options) 0,
          maxX = opt_maxX options, maxY = opt_maxY options,
          numCols = \<lceil>(opt_maxX options - or_default (opt_minX options) 0) / opt_cellSize options\<rceil>,
          numRows = \<lceil>(opt_maxY options - or_default (opt_minY options) 0) / opt_cellSize options\<rceil>,
          grid = init_grid
            \<lceil>(opt_maxX options - or_default (opt_minX options) 0) / opt_cellSize options\<rceil>
            \<lceil>(opt_maxY options - or_default (opt_minY options) 0) / opt_cellSize options\<rceil>,
          collisionTests = 0\<rparr>"
  using assms by (simp add: construct_def valid_options_def Let_def)

lemma construct_Inr_valid: "construct options = Inr s \<Longrightarrow> valid_options options"
  by (auto simp: construct_def valid_options_def split: if_splits)

lemma ceiling_quotient_pos:
  fixes a b c :: real
  assumes "0 < c" "b < a"
  shows "1 \<le> \<lceil>(a - b) / c\<rceil>"
proof -
  have "0 < (a - b) / c" using assms by simp
  then have "0 < \<lceil>(a - b) / c\<rceil>" by (simp add: less_ceiling_iff)
  then show ?thesis by simp
qed

lemma construct_inv:
  assumes "construct options = Inr s"
  shows "grid_inv s"
proof -
  have v: "valid_options options" using assms by (rule construct_Inr_valid)
  have "1 \<le> \<lceil>(opt_maxX options - or_default (opt_minX options) 0) / opt_cellSize options\<rceil>"
    "1 \<le> \<lceil>(opt_maxY options - or_default (opt_minY options) 0) / opt_cellSize options\<rceil>"
    using v by (simp_all add: valid_options_def ceiling_quotient_pos)
  moreover have "0 < opt_cellSize options" using v by (simp add: valid_options_def)
  ultimately show ?thesis
    using assms unfolding construct_valid [OF v]
    by (auto simp: grid_inv_def intro: allocated_init)
qed

lemma update_inv:
  assumes "grid_inv s" "update s entities = Inr s'"
  shows "grid_inv s'"
proof -
  from update_cells [OF assms(1), of entities] assms(2) obtain g' where
    "s' = s\<lparr>grid := g'\<rparr>" "allocated g' (numCols s) (numRows s)"
    by auto
  with assms(1) show ?thesis by (simp add: grid_inv_def)
qed

subsection \<open>What queryPairs computes\<close>

lemma index_pairs_short: "length xs < 2 \<Longrightarrow> index_pairs xs = []"
  by (cases xs; cases "tl xs") auto

lemma for_each_candidates:
  assumes "\<And>k st. k \<in> set ks \<Longrightarrow> body k st = Inr (fold F (cand k) st)"
  shows "for_each ks body st = Inr (fold F (concat (map cand ks)) st)"
  using assms by (induction ks arbitrary: st) simp_all

lemma query_cell:
  assumes "allocated g nc nr" "0 \<le> col" "col < nc" "0 \<le> row" "row < nr"
  shows "(case get_cell g col row of
            Inl e \<Rightarrow> Inl e
          | Inr entitiesInCell \<Rightarrow>
              if length entitiesInCell < 2 then Inr st
              else Inr (pair_loop (grid_step numstr) entitiesInCell st))
         = Inr (fold (\<lambda>(a, b). grid_step numstr a b) (index_pairs (g ! nat col ! nat row)) st)"
  using in_grid_allocated [OF assms]
  by (simp add: get_cell_def pair_loop_index_pairs index_pairs_short)

lemma query_loops:
  assumes "allocated (grid s) (numCols s) (numRows s)"
  shows "for_each [0..numCols s - 1]
           (\<lambda>col. for_each [0..numRows s - 1]
              (\<lambda>row st.
                 case get_cell (grid s) col row of
                   Inl e \<Rightarrow> Inl e
                 | Inr entitiesInCell \<Rightarrow>
                     if length entitiesInCell < 2 then Inr st
                     else Inr (pair_loop (grid_step numstr) entitiesInCell st)))
           st
         = Inr (fold (\<lambda>(a, b). grid_step numstr a b) (candidates s) st)"
  unfolding candidates_def
proof (rule for_each_candidates)
  fix col st
  assume "col \<in> set [0..numCols s - 1]"
  then have col: "0 \<le> col" "col < numCols s" by simp_all
  show "for_each [0..numRows s - 1]
          (\<lambda>row st.
             case get_cell (grid s) col row of
               Inl e \<Rightarrow> Inl e
             | Inr entitiesInCell \<Rightarrow>
                 if length entitiesInCell < 2 then Inr st
                 else Inr (pair_loop (grid_step numstr) entitiesInCell st))
          st
        = Inr (fold (\<lambda>(a, b). grid_step numstr a b)
                 (concat (map (\<lambda>row. index_pairs (grid s ! nat col ! nat row)) [0..numRows s - 1]))
                 st)"
  proof (rule for_each_candidates)
    fix row st
    assume "row \<in> set [0..numRows s - 1]"
    then have "0 \<le> row" "row < numRows s" by simp_all
    then show "(case get_cell (grid s) col row of
                  Inl e \<Rightarrow> Inl e
                | Inr entitiesInCell \<Rightarrow>
                    if length entitiesInCell < 2 then Inr st
                    else Inr (pair_loop (grid_step numstr) entitiesInCell st))
               = Inr (fold (\<lambda>(a, b). grid_step numstr a b)
                        (index_pairs (grid s ! nat col ! nat row)) st)"
      by (intro query_cell [OF assms col])
  qed
qed

lemma queryPairs_eq:
  assumes "allocated (grid s) (numCols s) (numRows s)"
  shows "queryPairs numstr s =
     Inr (fst (fold (\<lambda>(a, b). grid_step numstr a b) (candidates s) ([], {}, 0)),
          s\<lparr>collisionTests :=
              snd (snd (fold (\<lambda>(a, b). grid_step numstr a b) (candidates s) ([], {}, 0)))\<rparr>)"
proof -
  obtain pairs checked tests where
    r: "fold (\<lambda>(a, b). grid_step numstr a b) (candidates s) ([], {}, 0) = (pairs, checked, tests)"
    by (cases "fold (\<lambda>(a, b). grid_step numstr a b) (candidates s) ([], {}, 0)") auto
  show ?thesis
    unfolding queryPairs_def query_loops [OF assms] r by simp
qed

lemma queryPairs_inv:
  assumes "grid_inv s" "queryPairs numstr s = Inr (pairs, s')"
  shows "grid_inv s'"
proof -
  from assms(1) have "allocated (grid s) (numCols s) (numRows s)" by (simp add: grid_inv_def)
  from assms(2) [unfolded queryPairs_eq [OF this]]
  have "s' = s\<lparr>collisionTests :=
      snd (snd (fold (\<lambda>(a, b). grid_step numstr a b) (candidates s) ([], {}, 0)))\<rparr>"
    by simp
  with assms(1) show ?thesis
    by (simp add: grid_inv_def)
qed

lemma reachable_inv: "reachable s \<Longrightarrow> grid_inv s"
proof (induction rule: reachable.induct)
  case (reachable_construct options s)
  then show ?case by (rule construct_inv)
next
  case (reachable_update s entities s')
  from reachable_update.IH reachable_update.hyps(2) show ?case by (rule update_inv)
next
  case (reachable_query s numstr pairs s')
  from reachable_query.IH reachable_query.hyps(2) show ?case by (rule queryPairs_inv)
qed

subsection \<open>Empty cells\<close>

lemma candidates_no_pairs:
  assumes "\<And>c r. 0 \<le> c \<Longrightarrow> c < numCols s \<Longrightarrow> 0 \<le> r \<Longrightarrow> r < numRows s
             \<Longrightarrow> length (grid s ! nat c ! nat r) < 2"
  shows "candidates s = []"
  using assms by (simp add: candidates_def index_pairs_short)

lemma candidates_collisionTests [simp]:
  "candidates (s\<lparr>collisionTests := t\<rparr>) = candidates s"
  by (simp add: candidates_def)

subsection \<open>Index pairs\<close>

lemma index_pairs_members:
  "(a, b) \<in> set (index_pairs xs) \<Longrightarrow> a \<in> set xs \<and> b \<in> set xs"
  by (induction xs) auto

lemma id_pair_eq_iff:
  "id_pair (a, b) = id_pair (c, d) \<longleftrightarrow>
     id_e a = id_e c \<and> id_e b = id_e d \<or> id_e a = id_e d \<and> id_e b = id_e c"
  by (simp add: id_pair_def doubleton_eq_iff)

lemma distinct_id_pairs_index_pairs:
  "distinct (map id_e xs) \<Longrightarrow> distinct (map id_pair (index_pairs xs))"
proof (induction xs)
  case Nil
  show ?case by simp
next
  case (Cons x xs)
  from Cons.prems have fresh: "id_e x \<notin> id_e ` set xs" and d: "distinct (map id_e xs)"
    by simp_all
  then have inj: "inj_on id_e (set xs)" and dx: "distinct xs"
    by (simp_all add: distinct_map)
  have "inj_on (\<lambda>b. id_pair (x, b)) (set xs)"
  proof (rule inj_onI)
    fix b b'
    assume "b \<in> set xs" "b' \<in> set xs" "id_pair (x, b) = id_pair (x, b')"
    then have "id_e b = id_e b'"
      by (auto simp: id_pair_eq_iff)
    with inj \<open>b \<in> set xs\<close> \<open>b' \<in> set xs\<close> show "b = b'"
      by (auto dest: inj_onD)
  qed
  with dx have first: "distinct (map id_pair (map (Pair x) xs))"
    by (simp add: distinct_map comp_def)
  have apart: "id_pair (x, b) \<noteq> id_pair p" if "b \<in> set xs" "p \<in> set (index_pairs xs)" for b p
  proof -
    obtain c d where p: "p = (c, d)" by (cases p)
    with that have "c \<in> set xs" "d \<in> set xs"
      by (auto dest: index_pairs_members)
    with fresh have "id_e x \<noteq> id_e c" "id_e x \<noteq> id_e d"
      by auto
    then show ?thesis
      unfolding p by (simp add: id_pair_eq_iff)
  qed
  from first Cons.IH [OF d] apart show ?case
    by auto
qed

subsection \<open>The innermost step of queryPairs\<close>

lemma pair_key_ids:
  "id_e a = id_e c \<Longrightarrow> id_e b = id_e d \<Longrightarrow> pair_key numstr a b = pair_key numstr c d"
  by (simp add: pair_key_def)

lemma grid_step_cases:
  "grid_step numstr a b (pairs, checked, tests) =
     (if pair_key numstr a b \<in> checked \<or> pair_key numstr b a \<in> checked
      then (pairs, checked, tests)
      else (if aabbIntersects (aabb a) (aabb b) then pairs @ [(a, b)] else pairs,
            insert (pair_key numstr b a) (insert (pair_key numstr a b) checked),
            tests + 1))"
  by (simp add: grid_step_def Let_def)

lemma pushed_marked_step:
  assumes "pushed_marked numstr st"
  shows "pushed_marked numstr (grid_step numstr a b st)"
proof -
  obtain pairs checked tests where st: "st = (pairs, checked, tests)" by (cases st)
  from assms have marked: "\<And>p. p \<in> set pairs \<Longrightarrow>
      pair_key numstr (fst p) (snd p) \<in> checked \<and> pair_key numstr (snd p) (fst p) \<in> checked"
    and dist: "distinct (map id_pair pairs)"
    by (simp_all add: pushed_marked_def st)
  show ?thesis
  proof (cases "pair_key numstr a b \<in> checked \<or> pair_key numstr b a \<in> checked")
    case True
    with assms show ?thesis by (simp add: st grid_step_cases)
  next
    case False
    have new: "id_pair (a, b) \<notin> id_pair ` set pairs"
    proof
      assume "id_pair (a, b) \<in> id_pair ` set pairs"
      then obtain c d where cd: "(c, d) \<in> set pairs" "id_pair (a, b) = id_pair (c, d)"
        by auto
      from cd(2) have "pair_key numstr a b = pair_key numstr c d
          \<or> pair_key numstr a b = pair_key numstr d c"
        by (auto simp: id_pair_eq_iff intro: pair_key_ids)
      with marked [OF cd(1)] False show False by auto
    qed
    from False marked dist new show ?thesis
      by (auto simp: st grid_step_cases pushed_marked_def)
  qed
qed

lemma pushed_marked_fold:
  "pushed_marked numstr st \<Longrightarrow> pushed_marked numstr (fold (\<lambda>(a, b). grid_step numstr a b) ps st)"
proof (induction ps arbitrary: st)
  case Nil
  then show ?case by simp
next
  case (Cons p ps)
  obtain a b where p: "p = (a, b)" by (cases p)
  have "pushed_marked numstr (grid_step numstr a b st)"
    using Cons.prems by (rule pushed_marked_step)
  then have "pushed_marked numstr
      (fold (\<lambda>(a, b). grid_step numstr a b) ps (grid_step numstr a b st))"
    by (rule Cons.IH)
  then show ?case by (simp add: p)
qed

lemma distinct_grid_pairs:
  "distinct (map id_pair (fst (fold (\<lambda>(a, b). grid_step numstr a b) ps ([], {}, 0))))"
proof -
  have "pushed_marked numstr ([], {}, 0)"
    by (simp add: pushed_marked_def)
  then have "pushed_marked numstr (fold (\<lambda>(a, b). grid_step numstr a b) ps ([], {}, 0))"
    by (rule pushed_marked_fold)
  then show ?thesis by (simp add: pushed_marked_def)
qed

section \<open>The scenarios of the specification\<close>

text \<open>
  Scenario A: the boxes \<open>(0,0)-(32,32)\<close> and \<open>(30,30)-(62,62)\<close> give exactly the
  pair of 1 and 2 from both detectors.
\<close>

lemma scenario_A:
  "grid_pairs number_str grid_2x2
     [mk_entity (Num 1) (mk_box 0 0 32 32), mk_entity (Num 2) (mk_box 30 30 62 62)]
   = Inr [(mk_entity (Num 1) (mk_box 0 0 32 32), mk_entity (Num 2) (mk_box 30 30 62 62))]"
  "fst (bf_run [mk_entity (Num 1) (mk_box 0 0 32 32), mk_entity (Num 2) (mk_box 30 30 62 62)])
   = [(mk_entity (Num 1) (mk_box 0 0 32 32), mk_entity (Num 2) (mk_box 30 30 62 62))]"
  by code_simp+

text \<open>
  Scenario B: the disjoint boxes \<open>(0,0)-(10,10)\<close> and \<open>(20,20)-(30,30)\<close> give no pair
  from either detector, and the brute-force detector has made one test.
\<close>

lemma scenario_B:
  "grid_pairs number_str grid_2x2
     [mk_entity (Num 1) (mk_box 0 0 10 10), mk_entity (Num 2) (mk_box 20 20 30 30)] = Inr []"
  "fst (bf_run [mk_entity (Num 1) (mk_box 0 0 10 10), mk_entity (Num 2) (mk_box 20 20 30 30)]) = []"
  "bf_collisionTests
     (snd (bf_run [mk_entity (Num 1) (mk_box 0 0 10 10), mk_entity (Num 2) (mk_box 20 20 30 30)])) = 1"
  by code_simp+

text \<open>Scenario C: no entity or one entity gives no pair and no test.\<close>

lemma scenario_C:
  "map_sum id (\<lambda>r. (fst r, collisionTests (snd r))) (grid_run number_str grid_2x2 []) = Inr ([], 0)"
  "map_sum id (\<lambda>r. (fst r, collisionTests (snd r)))
     (grid_run number_str grid_2x2 [mk_entity (Num 1) (mk_box 0 0 10 10)]) = Inr ([], 0)"
  "fst (bf_run []) = [] \<and> bf_collisionTests (snd (bf_run [])) = 0"
  "fst (bf_run [mk_entity (Num 1) (mk_box 0 0 10 10)]) = []
   \<and> bf_collisionTests (snd (bf_run [mk_entity (Num 1) (mk_box 0 0 10 10)])) = 0"
  by code_simp+

section \<open>Properties of the overlap predicate\<close>

text \<open>
  C2: \<open>aabbIntersects a b\<close> is false exactly when \<open>a.max.x < b.min.x\<close> or
  \<open>b.max.x < a.min.x\<close> or \<open>a.max.y < b.min.y\<close> or \<open>b.max.y < a.min.y\<close>, and true
  otherwise. In particular two boxes that share a boundary coordinate and are not strictly
  separated on either axis intersect: the test is on closed intervals.
\<close>

theorem aabbIntersects_closed_overlap:
  "(aabbIntersects a b \<longleftrightarrow>
      \<not> (x_c (max_c a) < x_c (min_c b) \<or> x_c (max_c b) < x_c (min_c a) \<or>
         y_c (max_c a) < y_c (min_c b) \<or> y_c (max_c b) < y_c (min_c a)))
   \<and> ((x_c (max_c a) = x_c (min_c b) \<or> y_c (max_c a) = y_c (min_c b)) \<and>
       x_c (min_c a) \<le> x_c (max_c b) \<and> x_c (min_c b) \<le> x_c (max_c a) \<and>
       y_c (min_c a) \<le> y_c (max_c b) \<and> y_c (min_c b) \<le> y_c (max_c a)
      \<longrightarrow> aabbIntersects a b)"
  by (auto simp: aabbIntersects_def)

theorem aabbIntersects_closed_overlap_witness:
  "aabbIntersects
     \<lparr>min_c = \<lparr>x_c = 0, y_c = 0\<rparr>, max_c = \<lparr>x_c = 10, y_c = 10\<rparr>\<rparr>
     \<lparr>min_c = \<lparr>x_c = 10, y_c = 0\<rparr>, max_c = \<lparr>x_c = 20, y_c = 10\<rparr>\<rparr>"
  using aabbIntersects_closed_overlap
    [of "\<lparr>min_c = \<lparr>x_c = 0, y_c = 0\<rparr>, max_c = \<lparr>x_c = 10, y_c = 10\<rparr>\<rparr>"
        "\<lparr>min_c = \<lparr>x_c = 10, y_c = 0\<rparr>, max_c = \<lparr>x_c = 20, y_c = 10\<rparr>\<rparr>"]
  by simp

text \<open>C8: the overlap predicate is symmetric, \<open>aabbIntersects a b = aabbIntersects b a\<close>.\<close>

theorem aabbIntersects_symmetric:
  "aabbIntersects a b = aabbIntersects b a"
  by (auto simp: aabbIntersects_def)

section \<open>Properties of the brute-force detector\<close>

text \<open>
  C3: after \<open>update\<close> with a snapshot of n entities, one \<open>queryPairs\<close> leaves
  \<open>collisionTests\<close> equal to n * (n - 1) / 2.
\<close>

theorem bf_collisionTests_count:
  "bf_collisionTests (snd (bf_queryPairs (bf_update s entities)))
     = length entities * (length entities - 1) div 2"
  by (simp add: bf_queryPairs_eq bf_update_def length_index_pairs)

section \<open>Properties of the grid detector\<close>

text \<open>
  The constructor validates the cell size first: a configuration whose cell size and
  bounds are both invalid fails with the message of the cell size, which is not an
  \<open>InvalidBounds\<close> error.
\<close>

theorem construct_bounds_counterexample:
  "opt_maxX \<lparr>opt_cellSize = 0, opt_minX = None, opt_minY = None, opt_maxX = 0, opt_maxY = 10\<rparr>
     \<le> or_default
         (opt_minX \<lparr>opt_cellSize = 0, opt_minX = None, opt_minY = None, opt_maxX = 0, opt_maxY = 10\<rparr>) 0
   \<and> construct \<lparr>opt_cellSize = 0, opt_minX = None, opt_minY = None, opt_maxX = 0, opt_maxY = 10\<rparr>
       = Inl (Error ''cellSize must be greater than 0'')
   \<and> Error ''cellSize must be greater than 0'' \<notin> InvalidBounds"
  by (simp add: construct_def or_default_def InvalidBounds_def)

text \<open>
  C6, as amended: a \<open>cellSize \<le> 0\<close> fails with \<open>InvalidCellSize\<close>; with a positive
  \<open>cellSize\<close>, \<open>maxX \<le> minX\<close> or \<open>maxY \<le> minY\<close> fails with \<open>InvalidBounds\<close>; and no
  invalid configuration yields a detector, the result being the error alone.
\<close>

theorem construct_validation:
  "(opt_cellSize options \<le> 0 \<longrightarrow> construct options = Inl InvalidCellSize)
   \<and> (0 < opt_cellSize options
        \<and> (opt_maxX options \<le> or_default (opt_minX options) 0
             \<or> opt_maxY options \<le> or_default (opt_minY options) 0)
        \<longrightarrow> construct options \<in> Inl ` InvalidBounds)
   \<and> (\<not> valid_options options \<longrightarrow> (\<forall>s. construct options \<noteq> Inr s))"
  by (auto simp: construct_def InvalidCellSize_def InvalidBounds_def valid_options_def)

theorem construct_validation_witness:
  "opt_cellSize \<lparr>opt_cellSize = 0, opt_minX = None, opt_minY = None, opt_maxX = 64, opt_maxY = 64\<rparr> \<le> 0
   \<and> construct \<lparr>opt_cellSize = 0, opt_minX = None, opt_minY = None, opt_maxX = 64, opt_maxY = 64\<rparr>
       = Inl InvalidCellSize
   \<and> \<not> valid_options \<lparr>opt_cellSize = 32, opt_minX = Some 10, opt_minY = None, opt_maxX = 10, opt_maxY = 64\<rparr>
   \<and> construct \<lparr>opt_cellSize = 32, opt_minX = Some 10, opt_minY = None, opt_maxX = 10, opt_maxY = 64\<rparr>
       \<in> Inl ` InvalidBounds
   \<and> (\<forall>s. construct \<lparr>opt_cellSize = 32, opt_minX = Some 10, opt_minY = None, opt_maxX = 10, opt_maxY = 64\<rparr>
          \<noteq> Inr s)"
  using
    construct_validation
      [of "\<lparr>opt_cellSize = 0, opt_minX = None, opt_minY = None, opt_maxX = 64, opt_maxY = 64\<rparr>"]
    construct_validation
      [of "\<lparr>opt_cellSize = 32, opt_minX = Some 10, opt_minY = None, opt_maxX = 10, opt_maxY = 64\<rparr>"]
  by (simp add: valid_options_def or_default_def)

text \<open>
  C9: \<open>queryPairs\<close> on a freshly constructed detector, before any \<open>update\<close>, returns no
  pair and leaves \<open>collisionTests\<close> at 0, for the brute-force detector and for a grid
  detector of any valid configuration.
\<close>

theorem fresh_detector_query:
  "fst (bf_queryPairs bf_new) = [] \<and> bf_collisionTests (snd (bf_queryPairs bf_new)) = 0
   \<and> (valid_options options \<longrightarrow>
        (\<exists>s s'. construct options = Inr s \<and> queryPairs numstr s = Inr ([], s')
           \<and> collisionTests s' = 0))"
proof -
  have bf: "fst (bf_queryPairs bf_new) = [] \<and> bf_collisionTests (snd (bf_queryPairs bf_new)) = 0"
    by (simp add: bf_queryPairs_eq bf_new_def)
  have "\<exists>s s'. construct options = Inr s \<and> queryPairs numstr s = Inr ([], s') \<and> collisionTests s' = 0"
    if v: "valid_options options"
  proof -
    from construct_valid [OF v] obtain s where
      c: "construct options = Inr s" and g: "grid s = init_grid (numCols s) (numRows s)"
      by simp
    have "grid_inv s" using c by (rule construct_inv)
    then have alloc: "allocated (grid s) (numCols s) (numRows s)"
      by (simp add: grid_inv_def)
    have "candidates s = []"
      by (rule candidates_no_pairs) (simp add: g init_grid_eq)
    with queryPairs_eq [OF alloc, of numstr] c show ?thesis by simp
  qed
  with bf show ?thesis by blast
qed

theorem fresh_detector_query_witness:
  "valid_options \<lparr>opt_cellSize = 32, opt_minX = None, opt_minY = None, opt_maxX = 64, opt_maxY = 64\<rparr>
   \<and> (\<exists>s s'. construct \<lparr>opt_cellSize = 32, opt_minX = None, opt_minY = None, opt_maxX = 64, opt_maxY = 64\<rparr>
                = Inr s
         \<and> queryPairs number_str s = Inr ([], s') \<and> collisionTests s' = 0)"
proof -
  let ?c = "\<lparr>opt_cellSize = 32, opt_minX = None, opt_minY = None, opt_maxX = 64, opt_maxY = 64\<rparr>"
  have v: "valid_options ?c"
    by (simp add: valid_options_def or_default_def)
  with fresh_detector_query [of ?c number_str] show ?thesis by blast
qed

text \<open>
  C7 requires, for every valid configuration, a grid of
  \<open>numCols = ceil((maxX - minX) / cellSize)\<close> columns and as many rows as the other
  ceiling, and a cell mapping that is clamped into \<open>0 .. numCols - 1\<close> and
  \<open>0 .. numRows - 1\<close>, so that a coordinate outside the bounds falls into an edge cell.
  In the detector \<open>no_cells\<close> the ceiling of the exact quotient is 1 where \<open>numCols\<close>
  is 0, and \<open>worldToGrid\<close> maps every coordinate to \<open>(0, 0)\<close>, which is above
  \<open>numCols - 1 = -1\<close> and is no cell of the grid.
\<close>

theorem cell_mapping_without_cells:
  "numCols no_cells = 0
   \<and> \<lceil>(maxX no_cells - minX no_cells) / cellSize no_cells\<rceil> = 1
   \<and> worldToGrid no_cells x y = (0, 0)
   \<and> numCols no_cells - 1 = - 1 \<and> numRows no_cells - 1 = - 1
   \<and> get_cell (grid no_cells) (fst (worldToGrid no_cells x y)) (snd (worldToGrid no_cells x y))
       = Inl OutOfGrid"
proof -
  have w: "worldToGrid no_cells x y = (0, 0)"
    by (simp add: worldToGrid_def Let_def)
  have "0 < (1 / 2 ^ 1074 - 0) / (4 :: real)" "(1 / 2 ^ 1074 - 0) / (4 :: real) \<le> 1"
    by (simp_all add: divide_le_eq)
  then have "\<lceil>(1 / 2 ^ 1074 - 0) / (4 :: real)\<rceil> = 1"
    by (intro ceiling_unique) simp_all
  moreover have "get_cell (grid no_cells) 0 0 = Inl OutOfGrid"
    by (simp add: get_cell_def in_grid_def)
  ultimately show ?thesis
    unfolding w by simp
qed

text \<open>
  C10 requires \<open>numCols \<ge> 1\<close> and \<open>numRows \<ge> 1\<close> for every valid configuration,
  indices of \<open>worldToGrid\<close> within \<open>0 .. numCols - 1\<close> and \<open>0 .. numRows - 1\<close>, and
  every cell access of \<open>update\<close> and \<open>queryPairs\<close> inside the allocated grid. The
  detector \<open>no_cells\<close>, of a valid configuration, has no column and no row, as many as
  its allocation loops have made; \<open>worldToGrid\<close> returns \<open>(0, 0)\<close> for every
  coordinate, where the grid has no cell; and \<open>update\<close> with any snapshot that is not
  empty fails at the first \<open>push\<close>, on an access outside the grid.
\<close>

theorem update_without_cells_fails:
  "valid_options \<lparr>opt_cellSize = 4, opt_minX = None, opt_minY = None,
                   opt_maxX = 1 / 2 ^ 1074, opt_maxY = 1 / 2 ^ 1074\<rparr>
   \<and> numCols no_cells = 0 \<and> numRows no_cells = 0
   \<and> grid no_cells = init_grid (numCols no_cells) (numRows no_cells)
   \<and> worldToGrid no_cells x y = (0, 0)
   \<and> \<not> in_grid (grid no_cells) 0 0
   \<and> update no_cells (e # es) = Inl OutOfGrid"
proof -
  have w: "worldToGrid no_cells x y = (0, 0)" for x y
    by (simp add: worldToGrid_def Let_def)
  have "insert_entity no_cells e [] = Inl OutOfGrid"
    unfolding insert_entity_def w by (simp add: push_cell_def in_grid_def)
  then have u: "update no_cells (e # es) = Inl OutOfGrid"
    by (simp add: update_def)
  have v: "valid_options \<lparr>opt_cellSize = 4, opt_minX = None, opt_minY = None,
      opt_maxX = 1 / 2 ^ 1074, opt_maxY = 1 / 2 ^ 1074\<rparr>"
    by (simp add: valid_options_def or_default_def)
  have g: "grid no_cells = init_grid (numCols no_cells) (numRows no_cells)"
    "\<not> in_grid (grid no_cells) 0 0"
    by (simp_all add: init_grid_def in_grid_def)
  from v w u g show ?thesis
    by simp
qed

text \<open>
  C5: a second \<open>queryPairs\<close> with no \<open>update\<close> in between returns the same pairs and
  leaves the same \<open>collisionTests\<close> as the first, for the brute-force detector in any
  state and for the grid detector in any state it reaches.
\<close>

theorem requery_idempotent:
  "bf_queryPairs (snd (bf_queryPairs b)) = bf_queryPairs b
   \<and> (reachable s \<longrightarrow>
        (\<exists>pairs s'. queryPairs numstr s = Inr (pairs, s') \<and> queryPairs numstr s' = Inr (pairs, s')))"
proof -
  have "bf_queryPairs (snd (bf_queryPairs b)) = bf_queryPairs b"
    by (simp add: bf_queryPairs_eq)
  moreover have "\<exists>pairs s'. queryPairs numstr s = Inr (pairs, s') \<and> queryPairs numstr s' = Inr (pairs, s')"
    if r: "reachable s"
  proof -
    let ?r = "fold (\<lambda>(a, b). grid_step numstr a b) (candidates s) ([], {}, 0)"
    let ?s' = "s\<lparr>collisionTests := snd (snd ?r)\<rparr>"
    have "grid_inv s" using r by (rule reachable_inv)
    then have alloc: "allocated (grid s) (numCols s) (numRows s)"
      by (simp add: grid_inv_def)
    then have alloc': "allocated (grid ?s') (numCols ?s') (numRows ?s')"
      by simp
    have "queryPairs numstr s = Inr (fst ?r, ?s')"
      by (rule queryPairs_eq [OF alloc])
    moreover have "queryPairs numstr ?s' = Inr (fst ?r, ?s')"
      unfolding queryPairs_eq [OF alloc'] by simp
    ultimately show ?thesis by blast
  qed
  ultimately show ?thesis by blast
qed

theorem requery_idempotent_witness:
  "\<exists>s1. update fresh_2x2 [mk_entity (Num 1) (mk_box 0 0 40 40), mk_entity (Num 2) (mk_box 10 10 50 50)] = Inr s1
     \<and> reachable s1
     \<and> (\<exists>pairs s'. queryPairs number_str s1 = Inr (pairs, s')
           \<and> queryPairs number_str s' = Inr (pairs, s'))"
proof -
  have c: "construct grid_2x2 = Inr fresh_2x2"
    by code_simp
  have r: "reachable fresh_2x2"
    using c by (rule reachable_construct)
  from update_cells [OF reachable_inv [OF r]] obtain s1 where
    u: "update fresh_2x2 [mk_entity (Num 1) (mk_box 0 0 40 40), mk_entity (Num 2) (mk_box 10 10 50 50)] = Inr s1"
    by blast
  have r1: "reachable s1"
    using r u by (rule reachable_update)
  from requery_idempotent [of _ s1 number_str] r1 u show ?thesis by blast
qed

section \<open>Properties of the two detectors together\<close>

text \<open>
  C4: for a snapshot with unique ids, neither detector returns the same unordered
  id-pair twice in one \<open>queryPairs\<close>, in whatever number of cells two entities meet.
\<close>

theorem no_duplicate_pairs:
  assumes "unique_ids entities" "reachable s"
  shows "distinct (map id_pair (fst (bf_queryPairs (bf_update b entities))))
     \<and> (\<exists>s1 pairs s2. update s entities = Inr s1 \<and> queryPairs numstr s1 = Inr (pairs, s2)
           \<and> distinct (map id_pair pairs))"
proof -
  have "distinct (map id_pair (index_pairs entities))"
    using assms(1) unfolding unique_ids_def by (rule distinct_id_pairs_index_pairs)
  then have bf: "distinct (map id_pair (fst (bf_queryPairs (bf_update b entities))))"
    by (simp add: bf_queryPairs_eq bf_update_def distinct_map_filter)
  have inv: "grid_inv s" using assms(2) by (rule reachable_inv)
  from update_cells [OF inv, of entities] obtain s1 where u: "update s entities = Inr s1"
    by blast
  have "grid_inv s1" using inv u by (rule update_inv)
  then have alloc: "allocated (grid s1) (numCols s1) (numRows s1)"
    by (simp add: grid_inv_def)
  from queryPairs_eq [OF alloc, of numstr] distinct_grid_pairs [of numstr "candidates s1"] u bf
  show ?thesis by blast
qed

theorem no_duplicate_pairs_witness:
  "unique_ids [mk_entity (Num 1) (mk_box 0 0 40 40), mk_entity (Num 2) (mk_box 10 10 50 50)]
   \<and> reachable fresh_2x2
   \<and> covers fresh_2x2 0 0 (mk_entity (Num 1) (mk_box 0 0 40 40))
   \<and> covers fresh_2x2 0 0 (mk_entity (Num 2) (mk_box 10 10 50 50))
   \<and> covers fresh_2x2 1 1 (mk_entity (Num 1) (mk_box 0 0 40 40))
   \<and> covers fresh_2x2 1 1 (mk_entity (Num 2) (mk_box 10 10 50 50))
   \<and> distinct (map id_pair (fst (bf_queryPairs (bf_update bf_new
        [mk_entity (Num 1) (mk_box 0 0 40 40), mk_entity (Num 2) (mk_box 10 10 50 50)]))))
   \<and> (\<exists>s1 pairs s2.
         update fresh_2x2
           [mk_entity (Num 1) (mk_box 0 0 40 40), mk_entity (Num 2) (mk_box 10 10 50 50)] = Inr s1
         \<and> queryPairs number_str s1 = Inr (pairs, s2) \<and> distinct (map id_pair pairs))"
proof -
  let ?es = "[mk_entity (Num 1) (mk_box 0 0 40 40), mk_entity (Num 2) (mk_box 10 10 50 50)]"
  have u: "unique_ids ?es"
    by (simp add: unique_ids_def)
  have c: "construct grid_2x2 = Inr fresh_2x2"
    by code_simp
  have r: "reachable fresh_2x2"
    using c by (rule reachable_construct)
  have cov: "covers fresh_2x2 0 0 (mk_entity (Num 1) (mk_box 0 0 40 40))"
    "covers fresh_2x2 0 0 (mk_entity (Num 2) (mk_box 10 10 50 50))"
    "covers fresh_2x2 1 1 (mk_entity (Num 1) (mk_box 0 0 40 40))"
    "covers fresh_2x2 1 1 (mk_entity (Num 2) (mk_box 10 10 50 50))"
    by (simp_all add: covers_def worldToGrid_def)
  from no_duplicate_pairs [OF u r, of bf_new number_str] u r cov show ?thesis
    by blast
qed

text \<open>
  C1 requires that, for every snapshot with unique ids and every valid configuration,
  the two detectors return the same set of unordered id-pairs after the same \<open>update\<close>.
  For four entities with the ids \<open>a:b\<close>, \<open>c\<close>, \<open>a\<close>, \<open>b:c\<close> and one box, in a
  valid grid, the brute-force detector returns all six pairs and the grid detector
  five: the pair of \<open>a\<close> and \<open>b:c\<close> has the key \<open>a:b:c\<close>, which the pair of
  \<open>a:b\<close> and \<open>c\<close> has marked, and it is skipped without having been tested (the
  grid detector makes five tests). No id is a number here, so that the result holds
  however the runtime prints numbers.
\<close>

theorem key_collision_skips_pair:
  "unique_ids [mk_entity (Str ''a:b'') (mk_box 0 0 10 10), mk_entity (Str ''c'') (mk_box 0 0 10 10),
               mk_entity (Str ''a'') (mk_box 0 0 10 10), mk_entity (Str ''b:c'') (mk_box 0 0 10 10)]
   \<and> well_formed (mk_box 0 0 10 10)
   \<and> valid_options grid_2x2
   \<and> pair_key numstr (mk_entity (Str ''a'') (mk_box 0 0 10 10)) (mk_entity (Str ''b:c'') (mk_box 0 0 10 10))
       = pair_key numstr (mk_entity (Str ''a:b'') (mk_box 0 0 10 10)) (mk_entity (Str ''c'') (mk_box 0 0 10 10))
   \<and> map_sum id id_pairs (grid_pairs numstr grid_2x2
        [mk_entity (Str ''a:b'') (mk_box 0 0 10 10), mk_entity (Str ''c'') (mk_box 0 0 10 10),
         mk_entity (Str ''a'') (mk_box 0 0 10 10), mk_entity (Str ''b:c'') (mk_box 0 0 10 10)])
       = Inr {{Str ''a:b'', Str ''c''}, {Str ''a:b'', Str ''a''}, {Str ''a:b'', Str ''b:c''},
              {Str ''c'', Str ''a''}, {Str ''c'', Str ''b:c''}}
   \<and> id_pairs (fst (bf_run
        [mk_entity (Str ''a:b'') (mk_box 0 0 10 10), mk_entity (Str ''c'') (mk_box 0 0 10 10),
         mk_entity (Str ''a'') (mk_box 0 0 10 10), mk_entity (Str ''b:c'') (mk_box 0 0 10 10)]))
       = {{Str ''a:b'', Str ''c''}, {Str ''a:b'', Str ''a''}, {Str ''a:b'', Str ''b:c''},
          {Str ''c'', Str ''a''}, {Str ''c'', Str ''b:c''}, {Str ''a'', Str ''b:c''}}
   \<and> map_sum id (\<lambda>r. collisionTests (snd r)) (grid_run numstr grid_2x2
        [mk_entity (Str ''a:b'') (mk_box 0 0 10 10), mk_entity (Str ''c'') (mk_box 0 0 10 10),
         mk_entity (Str ''a'') (mk_box 0 0 10 10), mk_entity (Str ''b:c'') (mk_box 0 0 10 10)])
       = Inr 5
   \<and> {Str ''a'', Str ''b:c''} \<notin>
       {{Str ''a:b'', Str ''c''}, {Str ''a:b'', Str ''a''}, {Str ''a:b'', Str ''b:c''},
        {Str ''c'', Str ''a''}, {Str ''c'', Str ''b:c''}}"
  by code_simp

end
